theory Spec2Isabelle
  imports Main
begin

section \<open>The permessage-snappy WebSocket extension\<close>

text \<open>
  A shallow embedding of \<^verbatim>\<open>autobahn/compress_snappy.py\<close>: the four negotiation
  objects (offer, accept of an offer, response, accept of a response), their parsers and
  serialisers, and the per-connection compression session.
\<close>

subsection \<open>Python values, types and exceptions\<close>

text \<open>
  An offer carries two flags. The constructor stores whatever it is given; its docstring
  types both parameters as \<^verbatim>\<open>bool\<close>, and \<^verbatim>\<open>parse\<close> only ever passes booleans,
  so the record has boolean fields.
\<close>

record PerMessageSnappyOffer =
  acceptNoContextTakeover :: bool
  requestNoContextTakeover :: bool

record PerMessageSnappyResponse =
  c2s_no_context_takeover :: bool
  s2c_no_context_takeover :: bool

text \<open>
  The values that reach the dynamically typed entry points: the decoded values of an
  extension parameter (the flag \<^verbatim>\<open>True\<close> or a string), and the arguments of the
  accept constructors, which the code inspects with \<^verbatim>\<open>isinstance\<close> and \<^verbatim>\<open>type\<close>.
\<close>

datatype pyval =
    PyNone
  | PyBool bool
  | PyInt int
  | PyStr string
  | PyOffer PerMessageSnappyOffer
  | PyResponse PerMessageSnappyResponse

datatype pytype = NoneType | BoolType | IntType | StrType | OfferType | ResponseType

fun py_type :: "pyval \<Rightarrow> pytype" where
  "py_type PyNone = NoneType"
| "py_type (PyBool b) = BoolType"
| "py_type (PyInt i) = IntType"
| "py_type (PyStr s) = StrType"
| "py_type (PyOffer x) = OfferType"
| "py_type (PyResponse x) = ResponseType"

text \<open>
  \<^verbatim>\<open>val != True\<close>. Python compares \<^verbatim>\<open>True\<close> as the integer 1, so the integer 1 is
  equal to it; a string, \<^verbatim>\<open>None\<close> and an object without \<^verbatim>\<open>__eq__\<close> never are.
\<close>

fun py_ne_True :: "pyval \<Rightarrow> bool" where
  "py_ne_True (PyBool b) = (\<not> b)"
| "py_ne_True (PyInt i) = (i \<noteq> 1)"
| "py_ne_True v = True"

text \<open>Truth value of an argument in a condition (\<^verbatim>\<open>if x and ...\<close>).\<close>

fun py_truthy :: "pyval \<Rightarrow> bool" where
  "py_truthy PyNone = False"
| "py_truthy (PyBool b) = b"
| "py_truthy (PyInt i) = (i \<noteq> 0)"
| "py_truthy (PyStr s) = (s \<noteq> [])"
| "py_truthy v = True"

text \<open>
  Every failure of the module is a plain \<^verbatim>\<open>Exception\<close> told apart by its message;
  one constructor per message, carrying the values the message is formatted with. The
  last three are raised by the interpreter itself: indexing an empty sequence, calling a
  method of \<^verbatim>\<open>None\<close>, and an exception coming out of the codec library.
\<close>

datatype error =
    MultipleOccurence string
      \<comment> \<open>multiple occurence of extension parameter p\<close>
  | IllegalParameterValue pyval string
      \<comment> \<open>illegal extension parameter value val for parameter p\<close>
  | IllegalParameter string
      \<comment> \<open>illegal extension parameter p\<close>
  | InvalidOfferType pytype
      \<comment> \<open>invalid type t for offer\<close>
  | InvalidRequestType pytype
      \<comment> \<open>invalid type t for requestNoContextTakeover\<close>
  | FeatureUnsupported pyval
      \<comment> \<open>invalid value v for requestNoContextTakeover - feature unsupported by client\<close>
  | InvalidResponseType pytype
      \<comment> \<open>invalid type t for response\<close>
  | IndexError
  | AttributeError
  | SnappyError string

definition EXTENSION_NAME :: string where
  "EXTENSION_NAME = ''permessage-snappy''"

subsection \<open>PerMessageSnappyOffer\<close>

text \<open>
  \<^verbatim>\<open>__init__(self, acceptNoContextTakeover = True, requestNoContextTakeover = False)\<close>:
  an omitted argument is \<open>None\<close> here and takes the default of the signature.
\<close>

definition Offer_init :: "bool option \<Rightarrow> bool option \<Rightarrow> PerMessageSnappyOffer" where
  "Offer_init acceptArg requestArg =
     \<lparr> acceptNoContextTakeover = (case acceptArg of None \<Rightarrow> True | Some a \<Rightarrow> a),
       requestNoContextTakeover = (case requestArg of None \<Rightarrow> False | Some r \<Rightarrow> r) \<rparr>"

definition Offer_getExtensionString :: "PerMessageSnappyOffer \<Rightarrow> string" where
  "Offer_getExtensionString self =
     (let pmceString = EXTENSION_NAME;
          pmceString = (if acceptNoContextTakeover self
                        then pmceString @ ''; c2s_no_context_takeover'' else pmceString);
          pmceString = (if requestNoContextTakeover self
                        then pmceString @ ''; s2c_no_context_takeover'' else pmceString)
      in pmceString)"

text \<open>
  The parameters are a dictionary from a parameter name to the sequence of its values.
  \<^verbatim>\<open>for p in params\<close> visits the keys in the dictionary's iteration order and raises
  at the first offending key, so the dictionary is an association list in that order.
  The loop threads the two flags; \<^verbatim>\<open>params[p][0]\<close> on an empty sequence raises
  \<^verbatim>\<open>IndexError\<close>.
\<close>

type_synonym params = "(string \<times> pyval list) list"

fun Offer_parse_loop :: "params \<Rightarrow> bool \<Rightarrow> bool \<Rightarrow> error + bool \<times> bool" where
  "Offer_parse_loop [] acceptFlag requestFlag = Inr (acceptFlag, requestFlag)"
| "Offer_parse_loop ((p, vals) # rest) acceptFlag requestFlag =
     (if length vals > 1 then Inl (MultipleOccurence p)
      else case vals of
        [] \<Rightarrow> Inl IndexError
      | val # _ \<Rightarrow>
          if p = ''c2s_no_context_takeover'' then
            (if py_ne_True val then Inl (IllegalParameterValue val p)
             else Offer_parse_loop rest True requestFlag)
          else if p = ''s2c_no_context_takeover'' then
            (if py_ne_True val then Inl (IllegalParameterValue val p)
             else Offer_parse_loop rest acceptFlag True)
          else Inl (IllegalParameter p))"

definition Offer_parse :: "params \<Rightarrow> error + PerMessageSnappyOffer" where
  "Offer_parse ps =
     (case Offer_parse_loop ps False False of
        Inl e \<Rightarrow> Inl e
      | Inr (acceptFlag, requestFlag) \<Rightarrow> Inr (Offer_init (Some acceptFlag) (Some requestFlag)))"

text \<open>
  An entry that the loop of either parser passes over without raising: a recognised name
  with exactly one value, and that value equal to \<^verbatim>\<open>True\<close>.
\<close>

fun accepted_entry :: "string \<times> pyval list \<Rightarrow> bool" where
  "accepted_entry (p, vals) =
     (case vals of
        [val] \<Rightarrow> (p = ''c2s_no_context_takeover'' \<or> p = ''s2c_no_context_takeover'') \<and> \<not> py_ne_True val
      | _ \<Rightarrow> False)"

subsection \<open>PerMessageSnappyOfferAccept\<close>

record PerMessageSnappyOfferAccept =
  oa_offer :: PerMessageSnappyOffer
  oa_requestNoContextTakeover :: bool

text \<open>
  \<^verbatim>\<open>__init__(self, offer, requestNoContextTakeover = False)\<close>. The checks are in the
  order of the source: the class of \<^verbatim>\<open>offer\<close>, the exact type of the flag, then the
  consent of the client.
\<close>

definition OfferAccept_init :: "pyval \<Rightarrow> pyval option \<Rightarrow> error + PerMessageSnappyOfferAccept" where
  "OfferAccept_init offer requestArg =
     (let request = (case requestArg of None \<Rightarrow> PyBool False | Some v \<Rightarrow> v) in
      case offer of
        PyOffer off \<Rightarrow>
          if py_type request \<noteq> BoolType then Inl (InvalidRequestType (py_type request))
          else if py_truthy request \<and> \<not> acceptNoContextTakeover off
            then Inl (FeatureUnsupported request)
          else Inr \<lparr> oa_offer = off, oa_requestNoContextTakeover = py_truthy request \<rparr>
      | _ \<Rightarrow> Inl (InvalidOfferType (py_type offer)))"

definition OfferAccept_getExtensionString :: "PerMessageSnappyOfferAccept \<Rightarrow> string" where
  "OfferAccept_getExtensionString self =
     (let pmceString = EXTENSION_NAME;
          pmceString = (if requestNoContextTakeover (oa_offer self)
                        then pmceString @ ''; s2c_no_context_takeover'' else pmceString);
          pmceString = (if oa_requestNoContextTakeover self
                        then pmceString @ ''; c2s_no_context_takeover'' else pmceString)
      in pmceString)"

text \<open>
  Whether a construction stopped at one of the two type checks, that is, before the
  consent check was evaluated.
\<close>

fun raised_type_error :: "error + 'a \<Rightarrow> bool" where
  "raised_type_error (Inl (InvalidOfferType t)) = True"
| "raised_type_error (Inl (InvalidRequestType t)) = True"
| "raised_type_error r = False"

subsection \<open>PerMessageSnappyResponse and PerMessageSnappyResponseAccept\<close>

definition Response_init :: "bool \<Rightarrow> bool \<Rightarrow> PerMessageSnappyResponse" where
  "Response_init c2s s2c = \<lparr> c2s_no_context_takeover = c2s, s2c_no_context_takeover = s2c \<rparr>"

fun Response_parse_loop :: "params \<Rightarrow> bool \<Rightarrow> bool \<Rightarrow> error + bool \<times> bool" where
  "Response_parse_loop [] c2s s2c = Inr (c2s, s2c)"
| "Response_parse_loop ((p, vals) # rest) c2s s2c =
     (if length vals > 1 then Inl (MultipleOccurence p)
      else case vals of
        [] \<Rightarrow> Inl IndexError
      | val # _ \<Rightarrow>
          if p = ''c2s_no_context_takeover'' then
            (if py_ne_True val then Inl (IllegalParameterValue val p)
             else Response_parse_loop rest True s2c)
          else if p = ''s2c_no_context_takeover'' then
            (if py_ne_True val then Inl (IllegalParameterValue val p)
             else Response_parse_loop rest c2s True)
          else Inl (IllegalParameter p))"

definition Response_parse :: "params \<Rightarrow> error + PerMessageSnappyResponse" where
  "Response_parse ps =
     (case Response_parse_loop ps False False of
        Inl e \<Rightarrow> Inl e
      | Inr (c2s, s2c) \<Rightarrow> Inr (Response_init c2s s2c))"

record PerMessageSnappyResponseAccept =
  response :: PerMessageSnappyResponse

definition ResponseAccept_init :: "pyval \<Rightarrow> error + PerMessageSnappyResponseAccept" where
  "ResponseAccept_init resp =
     (case resp of
        PyResponse r \<Rightarrow> Inr \<lparr> response = r \<rparr>
      | _ \<Rightarrow> Inl (InvalidResponseType (py_type resp)))"

subsection \<open>The extensions-header tokenizer\<close>

text \<open>
  Python's \<^verbatim>\<open>s.split(c)\<close> for a one-character separator, and \<^verbatim>\<open>s.strip()\<close> for
  blanks.
\<close>

fun split_char :: "char \<Rightarrow> string \<Rightarrow> string list" where
  "split_char c [] = [[]]"
| "split_char c (x # xs) =
     (if x = c then [] # split_char c xs
      else case split_char c xs of
             [] \<Rightarrow> [[x]]
           | piece # pieces \<Rightarrow> (x # piece) # pieces)"

definition strip :: "string \<Rightarrow> string" where
  "strip s = rev (dropWhile (\<lambda>ch. ch = CHR '' '') (rev (dropWhile (\<lambda>ch. ch = CHR '' '') s)))"

fun append_value :: "string \<Rightarrow> pyval \<Rightarrow> params \<Rightarrow> params" where
  "append_value key v [] = [(key, [v])]"
| "append_value key v ((k, vals) # rest) =
     (if k = key then (k, vals @ [v]) # rest else (k, vals) # append_value key v rest)"

text \<open>
  Modelled from the spec: the external extensions-header parser
  (\<^verbatim>\<open>WebSocketProtocol._parseExtensionsHeader\<close>, named by the docstrings of
  \<^verbatim>\<open>parse\<close>), whose code is not part of the file. The spec gives the wire syntax as
  the extension name token followed by parameters separated by \<^verbatim>\<open>;\<close>, and the consumed
  interface as a mapping from a parameter name to the ordered sequence of its decoded
  values, where a parameter without \<^verbatim>\<open>=value\<close> is decoded as the boolean true and the
  length of a sequence counts the repetitions of the name. A parameter with
  \<^verbatim>\<open>=value\<close> is decoded as the string after the first \<^verbatim>\<open>=\<close>.
\<close>

definition decode_parameter :: "string \<Rightarrow> string \<times> pyval" where
  "decode_parameter tok =
     (case split_char (CHR ''='') tok of
        [] \<Rightarrow> (strip tok, PyBool True)
      | [key] \<Rightarrow> (strip key, PyBool True)
      | key # _ \<Rightarrow> (strip key, PyStr (strip (drop (Suc (length key)) tok))))"

definition parseExtensionParams :: "string \<Rightarrow> params" where
  "parseExtensionParams header =
     foldl (\<lambda>m tok. case decode_parameter tok of (key, v) \<Rightarrow> append_value key v m) []
       (tl (map strip (split_char (CHR '';'') header)))"

subsection \<open>PerMessageSnappy: the compression session\<close>

text \<open>
  A codec object of the \<^verbatim>\<open>snappy\<close> library. The session is the only holder of its two
  codec objects, so each is stored in the session itself, with an identity: the number of
  codec objects created before it. Its state is the chunks it has been fed so far, which is
  all the library can make its output depend on.
\<close>

record snappy_object =
  object_id :: nat
  fed :: "string list"

record PerMessageSnappy =
  pmce_isServer :: bool
  pmce_compressor :: "snappy_object option"
  pmce_decompressor :: "snappy_object option"
  pmce_s2c_no_context_takeover :: bool
  pmce_c2s_no_context_takeover :: bool

definition PerMessageSnappy_init :: "bool \<Rightarrow> bool \<Rightarrow> bool \<Rightarrow> PerMessageSnappy" where
  "PerMessageSnappy_init isServer s2c c2s =
     \<lparr> pmce_isServer = isServer,
       pmce_compressor = None,
       pmce_decompressor = None,
       pmce_s2c_no_context_takeover = s2c,
       pmce_c2s_no_context_takeover = c2s \<rparr>"

definition createFromResponseAccept :: "bool \<Rightarrow> PerMessageSnappyResponseAccept \<Rightarrow> PerMessageSnappy" where
  "createFromResponseAccept isServer accept =
     PerMessageSnappy_init isServer
       (s2c_no_context_takeover (response accept))
       (c2s_no_context_takeover (response accept))"

definition createFromOfferAccept :: "bool \<Rightarrow> PerMessageSnappyOfferAccept \<Rightarrow> PerMessageSnappy" where
  "createFromOfferAccept isServer accept =
     PerMessageSnappy_init isServer
       (requestNoContextTakeover (oa_offer accept))
       (oa_requestNoContextTakeover accept)"

text \<open>
  The methods of a session take the session and the number of codec objects created so
  far, and return both updated. \<^verbatim>\<open>snappy.StreamCompressor()\<close> and
  \<^verbatim>\<open>snappy.StreamDecompressor()\<close> create an object that has been fed nothing.
\<close>

type_synonym world = "PerMessageSnappy \<times> nat"

definition new_snappy_object :: "nat \<Rightarrow> snappy_object \<times> nat" where
  "new_snappy_object created = (\<lparr> object_id = created, fed = [] \<rparr>, Suc created)"

definition startCompressMessage :: "world \<Rightarrow> world" where
  "startCompressMessage w =
     (case w of (self, created) \<Rightarrow>
        if pmce_isServer self then
          (if pmce_compressor self = None \<or> pmce_s2c_no_context_takeover self then
             (case new_snappy_object created of
                (obj, created') \<Rightarrow> (self\<lparr>pmce_compressor := Some obj\<rparr>, created'))
           else (self, created))
        else
          (if pmce_compressor self = None \<or> pmce_c2s_no_context_takeover self then
             (case new_snappy_object created of
                (obj, created') \<Rightarrow> (self\<lparr>pmce_compressor := Some obj\<rparr>, created'))
           else (self, created)))"

definition startDecompressMessage :: "world \<Rightarrow> world" where
  "startDecompressMessage w =
     (case w of (self, created) \<Rightarrow>
        if pmce_isServer self then
          (if pmce_decompressor self = None \<or> pmce_c2s_no_context_takeover self then
             (case new_snappy_object created of
                (obj, created') \<Rightarrow> (self\<lparr>pmce_decompressor := Some obj\<rparr>, created'))
           else (self, created))
        else
          (if pmce_decompressor self = None \<or> pmce_s2c_no_context_takeover self then
             (case new_snappy_object created of
                (obj, created') \<Rightarrow> (self\<lparr>pmce_decompressor := Some obj\<rparr>, created'))
           else (self, created)))"

text \<open>
  \<^verbatim>\<open>self._compressor.add_chunk(data)\<close> and \<^verbatim>\<open>self._decompressor.decompress(data)\<close>.
  On \<^verbatim>\<open>None\<close> the attribute lookup raises \<^verbatim>\<open>AttributeError\<close> and nothing changes.
  The library function is a parameter: from the chunks fed before and the new chunk it
  gives the output, or the message of the exception it raises.
\<close>

type_synonym codec = "string list \<Rightarrow> string \<Rightarrow> string + string"

definition compressMessageData :: "codec \<Rightarrow> world \<Rightarrow> string \<Rightarrow> (error + string) \<times> world" where
  "compressMessageData add_chunk w data =
     (case w of (self, created) \<Rightarrow>
        (case pmce_compressor self of
           None \<Rightarrow> (Inl AttributeError, w)
         | Some obj \<Rightarrow>
             ((case add_chunk (fed obj) data of
                 Inl msg \<Rightarrow> Inl (SnappyError msg)
               | Inr out \<Rightarrow> Inr out),
              (self\<lparr>pmce_compressor := Some (obj\<lparr>fed := fed obj @ [data]\<rparr>)\<rparr>, created))))"

definition decompressMessageData :: "codec \<Rightarrow> world \<Rightarrow> string \<Rightarrow> (error + string) \<times> world" where
  "decompressMessageData decompress w data =
     (case w of (self, created) \<Rightarrow>
        (case pmce_decompressor self of
           None \<Rightarrow> (Inl AttributeError, w)
         | Some obj \<Rightarrow>
             ((case decompress (fed obj) data of
                 Inl msg \<Rightarrow> Inl (SnappyError msg)
               | Inr out \<Rightarrow> Inr out),
              (self\<lparr>pmce_decompressor := Some (obj\<lparr>fed := fed obj @ [data]\<rparr>)\<rparr>, created))))"

definition endCompressMessage :: "world \<Rightarrow> string \<times> world" where
  "endCompressMessage w = ('''', w)"

definition endDecompressMessage :: "world \<Rightarrow> pyval \<times> world" where
  "endDecompressMessage w = (PyNone, w)"

text \<open>
  The calls a transport makes on a session, and the state after a sequence of them. A
  call that raises leaves the state as the method left it; the next call goes on from
  there.
\<close>

datatype call =
    StartCompressMessage
  | CompressMessageData string
  | EndCompressMessage
  | StartDecompressMessage
  | DecompressMessageData string
  | EndDecompressMessage

fun do_call :: "codec \<Rightarrow> codec \<Rightarrow> call \<Rightarrow> world \<Rightarrow> world" where
  "do_call add_chunk decompress StartCompressMessage w = startCompressMessage w"
| "do_call add_chunk decompress (CompressMessageData data) w = snd (compressMessageData add_chunk w data)"
| "do_call add_chunk decompress EndCompressMessage w = snd (endCompressMessage w)"
| "do_call add_chunk decompress StartDecompressMessage w = startDecompressMessage w"
| "do_call add_chunk decompress (DecompressMessageData data) w = snd (decompressMessageData decompress w data)"
| "do_call add_chunk decompress EndDecompressMessage w = snd (endDecompressMessage w)"

fun do_calls :: "codec \<Rightarrow> codec \<Rightarrow> call list \<Rightarrow> world \<Rightarrow> world" where
  "do_calls add_chunk decompress [] w = w"
| "do_calls add_chunk decompress (c # cs) w = do_calls add_chunk decompress cs (do_call add_chunk decompress c w)"

section \<open>Properties\<close>

text \<open>
  C9. A \<^verbatim>\<open>PerMessageSnappyOffer\<close> constructed with no arguments accepts "no context
  takeover" and does not request it, so it serialises to the extension name followed by
  \<^verbatim>\<open>; c2s_no_context_takeover\<close>, not to the bare extension name.
\<close>

theorem Offer_init_defaults:
  "acceptNoContextTakeover (Offer_init None None) = True \<and>
   requestNoContextTakeover (Offer_init None None) = False \<and>
   Offer_getExtensionString (Offer_init None None) = ''permessage-snappy; c2s_no_context_takeover'' \<and>
   Offer_getExtensionString (Offer_init None None) \<noteq> EXTENSION_NAME"
  by (simp add: Offer_init_def Offer_getExtensionString_def EXTENSION_NAME_def)

subsection \<open>The negotiation objects\<close>

text \<open>
  C1. Constructing an accept with \<^verbatim>\<open>requestNoContextTakeover = True\<close> fails with the
  "feature unsupported by client" error whenever the offer's \<^verbatim>\<open>acceptNoContextTakeover\<close>
  is false; for every offer and every boolean \<^verbatim>\<open>requestNoContextTakeover\<close> the
  construction succeeds otherwise, and so does the construction that omits the argument.
\<close>

theorem OfferAccept_init_consent:
  "(\<not> acceptNoContextTakeover offer \<longrightarrow>
      OfferAccept_init (PyOffer offer) (Some (PyBool True)) = Inl (FeatureUnsupported (PyBool True))) \<and>
   (\<not> (request \<and> \<not> acceptNoContextTakeover offer) \<longrightarrow>
      OfferAccept_init (PyOffer offer) (Some (PyBool request))
        = Inr \<lparr> oa_offer = offer, oa_requestNoContextTakeover = request \<rparr>) \<and>
   OfferAccept_init (PyOffer offer) None = Inr \<lparr> oa_offer = offer, oa_requestNoContextTakeover = False \<rparr>"
  by (simp add: OfferAccept_init_def Let_def)

theorem OfferAccept_init_consent_witness:
  "\<not> acceptNoContextTakeover \<lparr> acceptNoContextTakeover = False, requestNoContextTakeover = True \<rparr> \<and>
   OfferAccept_init (PyOffer \<lparr> acceptNoContextTakeover = False, requestNoContextTakeover = True \<rparr>)
       (Some (PyBool True)) = Inl (FeatureUnsupported (PyBool True)) \<and>
   \<not> (True \<and> \<not> acceptNoContextTakeover \<lparr> acceptNoContextTakeover = True, requestNoContextTakeover = False \<rparr>) \<and>
   OfferAccept_init (PyOffer \<lparr> acceptNoContextTakeover = True, requestNoContextTakeover = False \<rparr>)
       (Some (PyBool True))
     = Inr \<lparr> oa_offer = \<lparr> acceptNoContextTakeover = True, requestNoContextTakeover = False \<rparr>,
             oa_requestNoContextTakeover = True \<rparr>"
  using OfferAccept_init_consent [of "\<lparr> acceptNoContextTakeover = False, requestNoContextTakeover = True \<rparr>" True]
        OfferAccept_init_consent [of "\<lparr> acceptNoContextTakeover = True, requestNoContextTakeover = False \<rparr>" True]
  by simp

text \<open>
  C8, as the code has it. The constructor checks that \<^verbatim>\<open>requestNoContextTakeover\<close> is
  exactly of type \<^verbatim>\<open>bool\<close> before the consent check: with an offer of the right class,
  every value of another type raises the invalid-type error.
\<close>

theorem OfferAccept_init_checks_type:
  "py_type request \<noteq> BoolType \<Longrightarrow>
   OfferAccept_init (PyOffer offer) (Some request) = Inl (InvalidRequestType (py_type request)) \<and>
   raised_type_error (OfferAccept_init (PyOffer offer) (Some request))"
  by (simp add: OfferAccept_init_def Let_def)

theorem OfferAccept_init_checks_type_witness:
  "py_type (PyInt 1) \<noteq> BoolType \<and>
   OfferAccept_init (PyOffer \<lparr> acceptNoContextTakeover = True, requestNoContextTakeover = False \<rparr>)
       (Some (PyInt 1)) = Inl (InvalidRequestType IntType) \<and>
   raised_type_error (OfferAccept_init
       (PyOffer \<lparr> acceptNoContextTakeover = True, requestNoContextTakeover = False \<rparr>) (Some (PyInt 1)))"
  using OfferAccept_init_checks_type [of "PyInt 1" "\<lparr> acceptNoContextTakeover = True, requestNoContextTakeover = False \<rparr>"]
  by simp

text \<open>
  C8 as stated says that some value that is not a boolean gets past the type check to the
  consent check. There is none.
\<close>

theorem OfferAccept_init_unchecked_counterexample:
  "\<not> (\<exists>request offer. py_type request \<noteq> BoolType \<and>
         \<not> raised_type_error (OfferAccept_init (PyOffer offer) (Some request)))"
  by (simp add: OfferAccept_init_def Let_def)

subsection \<open>The parsers\<close>

text \<open>
  Both loops pass over a prefix of accepted entries and only collect the flags; a parse
  succeeds exactly on the mappings all of whose entries are accepted, and the response
  loop is the offer loop under other names.
\<close>

lemma Offer_parse_loop_append:
  "list_all accepted_entry pre \<Longrightarrow>
   Offer_parse_loop (pre @ rest) a r =
     Offer_parse_loop rest (a \<or> ''c2s_no_context_takeover'' \<in> fst ` set pre)
                           (r \<or> ''s2c_no_context_takeover'' \<in> fst ` set pre)"
proof (induction pre arbitrary: a r)
  case Nil
  then show ?case by simp
next
  case (Cons e pre)
  obtain p vals where e: "e = (p, vals)" by (cases e)
  from Cons.prems e obtain val where vals: "vals = [val]"
    and p: "p = ''c2s_no_context_takeover'' \<or> p = ''s2c_no_context_takeover''"
    and val: "\<not> py_ne_True val"
    by (auto split: list.splits)
  from Cons.prems have rest: "list_all accepted_entry pre" by simp
  from p show ?case
  proof
    assume "p = ''c2s_no_context_takeover''"
    then show ?thesis using e vals val Cons.IH [OF rest, of True r] by auto
  next
    assume "p = ''s2c_no_context_takeover''"
    then show ?thesis using e vals val Cons.IH [OF rest, of a True] by auto
  qed
qed

lemma Offer_parse_loop_accepted:
  "list_all accepted_entry ps \<Longrightarrow>
   Offer_parse_loop ps a r =
     Inr (a \<or> ''c2s_no_context_takeover'' \<in> fst ` set ps, r \<or> ''s2c_no_context_takeover'' \<in> fst ` set ps)"
  using Offer_parse_loop_append [of ps "[]" a r] by simp

lemma Offer_parse_loop_Inr_accepted:
  "Offer_parse_loop ps a r = Inr x \<Longrightarrow> list_all accepted_entry ps"
proof (induction ps a r rule: Offer_parse_loop.induct)
  case (1 a r)
  then show ?case by simp
next
  case (2 p vals rest a r)
  then show ?case
    by (auto split: if_splits list.splits)
qed

lemma Response_parse_loop_eq: "Response_parse_loop ps a b = Offer_parse_loop ps a b"
  by (induction ps a b rule: Offer_parse_loop.induct) (auto split: list.splits)

lemma Offer_parse_accepted:
  "list_all accepted_entry ps \<Longrightarrow>
   Offer_parse ps = Inr \<lparr> acceptNoContextTakeover = ''c2s_no_context_takeover'' \<in> fst ` set ps,
                          requestNoContextTakeover = ''s2c_no_context_takeover'' \<in> fst ` set ps \<rparr>"
  by (simp add: Offer_parse_def Offer_parse_loop_accepted Offer_init_def)

lemma Offer_parse_Inr_accepted: "Offer_parse ps = Inr offer \<Longrightarrow> list_all accepted_entry ps"
  by (auto simp: Offer_parse_def split: sum.splits dest: Offer_parse_loop_Inr_accepted)

lemma Response_parse_accepted:
  "list_all accepted_entry ps \<Longrightarrow>
   Response_parse ps = Inr \<lparr> c2s_no_context_takeover = ''c2s_no_context_takeover'' \<in> fst ` set ps,
                             s2c_no_context_takeover = ''s2c_no_context_takeover'' \<in> fst ` set ps \<rparr>"
  by (simp add: Response_parse_def Response_parse_loop_eq Offer_parse_loop_accepted Response_init_def)

lemma Response_parse_Inr_accepted: "Response_parse ps = Inr resp \<Longrightarrow> list_all accepted_entry ps"
  by (auto simp: Response_parse_def Response_parse_loop_eq split: sum.splits dest: Offer_parse_loop_Inr_accepted)

lemma Offer_parse_order_independent:
  "Offer_parse ps = Inr offer \<Longrightarrow> set ps' = set ps \<Longrightarrow> Offer_parse ps' = Inr offer"
proof -
  assume ok: "Offer_parse ps = Inr offer" and same: "set ps' = set ps"
  from ok have acc: "list_all accepted_entry ps" by (rule Offer_parse_Inr_accepted)
  with same have acc': "list_all accepted_entry ps'" by (simp add: list_all_iff)
  from Offer_parse_accepted [OF acc] Offer_parse_accepted [OF acc'] ok same
  show ?thesis by simp
qed

text \<open>
  The first entry that is not accepted decides the error, whatever follows it.
\<close>

lemma Offer_parse_loop_offender:
  "\<not> accepted_entry (q, ws) \<Longrightarrow>
   Offer_parse_loop ((q, ws) # rest) a r =
     Inl (if 1 < length ws then MultipleOccurence q
          else case ws of
            [] \<Rightarrow> IndexError
          | val # _ \<Rightarrow>
              if q = ''c2s_no_context_takeover'' \<or> q = ''s2c_no_context_takeover''
              then IllegalParameterValue val q else IllegalParameter q)"
  by (cases ws) (auto split: list.splits)

lemma Offer_parse_first_offender:
  "list_all accepted_entry early \<Longrightarrow> \<not> accepted_entry (q, ws) \<Longrightarrow>
   Offer_parse (early @ (q, ws) # rest) =
     Inl (if 1 < length ws then MultipleOccurence q
          else case ws of
            [] \<Rightarrow> IndexError
          | val # _ \<Rightarrow>
              if q = ''c2s_no_context_takeover'' \<or> q = ''s2c_no_context_takeover''
              then IllegalParameterValue val q else IllegalParameter q)"
proof -
  assume early: "list_all accepted_entry early" and offends: "\<not> accepted_entry (q, ws)"
  show ?thesis
    unfolding Offer_parse_def Offer_parse_loop_append [OF early] Offer_parse_loop_offender [OF offends]
    by simp
qed

lemma Response_parse_first_offender:
  "list_all accepted_entry early \<Longrightarrow> \<not> accepted_entry (q, ws) \<Longrightarrow>
   Response_parse (early @ (q, ws) # rest) =
     Inl (if 1 < length ws then MultipleOccurence q
          else case ws of
            [] \<Rightarrow> IndexError
          | val # _ \<Rightarrow>
              if q = ''c2s_no_context_takeover'' \<or> q = ''s2c_no_context_takeover''
              then IllegalParameterValue val q else IllegalParameter q)"
proof -
  assume early: "list_all accepted_entry early" and offends: "\<not> accepted_entry (q, ws)"
  show ?thesis
    unfolding Response_parse_def Response_parse_loop_eq Offer_parse_loop_append [OF early]
      Offer_parse_loop_offender [OF offends]
    by simp
qed

text \<open>
  C3. When \<^verbatim>\<open>Offer.parse\<close> returns an offer, its \<^verbatim>\<open>acceptNoContextTakeover\<close> is the
  presence of \<^verbatim>\<open>c2s_no_context_takeover\<close> among the keys and its
  \<^verbatim>\<open>requestNoContextTakeover\<close> the presence of \<^verbatim>\<open>s2c_no_context_takeover\<close>, an absent
  key giving false; it returns an offer on every mapping of accepted entries. The mapping with
  both keys bound to \<^verbatim>\<open>[True]\<close> parses to the offer with both flags true, which
  serialises to the extension name followed by the c2s and then the s2c parameter.
\<close>

theorem Offer_parse_binds_flags:
  "(Offer_parse ps = Inr offer \<longrightarrow>
      acceptNoContextTakeover offer = (''c2s_no_context_takeover'' \<in> fst ` set ps) \<and>
      requestNoContextTakeover offer = (''s2c_no_context_takeover'' \<in> fst ` set ps)) \<and>
   (list_all accepted_entry ps \<longrightarrow> (\<exists>parsed. Offer_parse ps = Inr parsed)) \<and>
   Offer_parse [(''c2s_no_context_takeover'', [PyBool True]), (''s2c_no_context_takeover'', [PyBool True])]
     = Inr \<lparr> acceptNoContextTakeover = True, requestNoContextTakeover = True \<rparr> \<and>
   Offer_getExtensionString \<lparr> acceptNoContextTakeover = True, requestNoContextTakeover = True \<rparr>
     = ''permessage-snappy; c2s_no_context_takeover; s2c_no_context_takeover''"
proof (intro conjI impI)
  assume ok: "Offer_parse ps = Inr offer"
  then have "list_all accepted_entry ps" by (rule Offer_parse_Inr_accepted)
  from Offer_parse_accepted [OF this] ok
  have eq: "offer = \<lparr> acceptNoContextTakeover = ''c2s_no_context_takeover'' \<in> fst ` set ps,
                       requestNoContextTakeover = ''s2c_no_context_takeover'' \<in> fst ` set ps \<rparr>"
    by simp
  show "acceptNoContextTakeover offer = (''c2s_no_context_takeover'' \<in> fst ` set ps)"
    by (subst eq) simp
  show "requestNoContextTakeover offer = (''s2c_no_context_takeover'' \<in> fst ` set ps)"
    by (subst eq) simp
next
  assume "list_all accepted_entry ps"
  then show "\<exists>parsed. Offer_parse ps = Inr parsed"
    by (simp add: Offer_parse_accepted)
next
  show "Offer_parse [(''c2s_no_context_takeover'', [PyBool True]), (''s2c_no_context_takeover'', [PyBool True])]
     = Inr \<lparr> acceptNoContextTakeover = True, requestNoContextTakeover = True \<rparr>"
    by (simp add: Offer_parse_def Offer_init_def)
next
  show "Offer_getExtensionString \<lparr> acceptNoContextTakeover = True, requestNoContextTakeover = True \<rparr>
     = ''permessage-snappy; c2s_no_context_takeover; s2c_no_context_takeover''"
    by (simp add: Offer_getExtensionString_def EXTENSION_NAME_def)
qed

theorem Offer_parse_binds_flags_witness:
  "Offer_parse [(''s2c_no_context_takeover'', [PyBool True])]
     = Inr \<lparr> acceptNoContextTakeover = False, requestNoContextTakeover = True \<rparr> \<and>
   list_all accepted_entry [(''s2c_no_context_takeover'', [PyBool True])] \<and>
   acceptNoContextTakeover \<lparr> acceptNoContextTakeover = False, requestNoContextTakeover = True \<rparr>
     = (''c2s_no_context_takeover'' \<in> fst ` set [(''s2c_no_context_takeover'', [PyBool True :: pyval])]) \<and>
   requestNoContextTakeover \<lparr> acceptNoContextTakeover = False, requestNoContextTakeover = True \<rparr>
     = (''s2c_no_context_takeover'' \<in> fst ` set [(''s2c_no_context_takeover'', [PyBool True :: pyval])])"
proof -
  have ok: "Offer_parse [(''s2c_no_context_takeover'', [PyBool True])]
     = Inr \<lparr> acceptNoContextTakeover = False, requestNoContextTakeover = True \<rparr>"
    by (simp add: Offer_parse_def Offer_init_def)
  have acc: "list_all accepted_entry [(''s2c_no_context_takeover'', [PyBool True])]"
    by simp
  from Offer_parse_binds_flags [of "[(''s2c_no_context_takeover'', [PyBool True])]"
      "\<lparr> acceptNoContextTakeover = False, requestNoContextTakeover = True \<rparr>"] ok acc
  show ?thesis by blast
qed

text \<open>
  C4, as the code has it. A mapping in which some key has more than one value is
  always rejected by both parsers. The error is the one of the first offending key in
  iteration order: it is the multiple-occurence error for the key \<open>p\<close> when every entry
  visited before \<open>p\<close> is accepted (in particular when \<open>p\<close> is visited first). When
  an entry \<open>(q, ws)\<close> that is not accepted is visited before \<open>p\<close>, after accepted
  entries only, the error is the one of \<open>q\<close>: multiple occurence when \<open>q\<close> has
  more than one value, \<^verbatim>\<open>IndexError\<close> when it has none, the illegal-value error when
  \<open>q\<close> is a recognised name, and the illegal-parameter error otherwise.
\<close>

theorem parse_multiple_occurence:
  assumes many: "1 < length vals"
  shows "(\<exists>e. Offer_parse (pre @ (p, vals) # post) = Inl e) \<and>
         (\<exists>e. Response_parse (pre @ (p, vals) # post) = Inl e) \<and>
         (list_all accepted_entry pre \<longrightarrow>
            Offer_parse (pre @ (p, vals) # post) = Inl (MultipleOccurence p) \<and>
            Response_parse (pre @ (p, vals) # post) = Inl (MultipleOccurence p)) \<and>
         (pre = early @ (q, ws) # between \<and> list_all accepted_entry early \<and> \<not> accepted_entry (q, ws) \<longrightarrow>
            Offer_parse (pre @ (p, vals) # post) =
              Inl (if 1 < length ws then MultipleOccurence q
                   else case ws of
                     [] \<Rightarrow> IndexError
                   | val # _ \<Rightarrow>
                       if q = ''c2s_no_context_takeover'' \<or> q = ''s2c_no_context_takeover''
                       then IllegalParameterValue val q else IllegalParameter q) \<and>
            Response_parse (pre @ (p, vals) # post) =
              Inl (if 1 < length ws then MultipleOccurence q
                   else case ws of
                     [] \<Rightarrow> IndexError
                   | val # _ \<Rightarrow>
                       if q = ''c2s_no_context_takeover'' \<or> q = ''s2c_no_context_takeover''
                       then IllegalParameterValue val q else IllegalParameter q))"
proof (intro conjI impI)
  from many have bad: "\<not> accepted_entry (p, vals)"
    by (auto split: list.splits)
  then have not_all: "\<not> list_all accepted_entry (pre @ (p, vals) # post)"
    by simp
  show "\<exists>e. Offer_parse (pre @ (p, vals) # post) = Inl e"
  proof (cases "Offer_parse (pre @ (p, vals) # post)")
    case (Inl e)
    then show ?thesis by blast
  next
    case (Inr offer)
    with not_all show ?thesis by (blast dest: Offer_parse_Inr_accepted)
  qed
  show "\<exists>e. Response_parse (pre @ (p, vals) # post) = Inl e"
  proof (cases "Response_parse (pre @ (p, vals) # post)")
    case (Inl e)
    then show ?thesis by blast
  next
    case (Inr resp)
    with not_all show ?thesis by (blast dest: Response_parse_Inr_accepted)
  qed
next
  assume pre: "list_all accepted_entry pre"
  from many show "Offer_parse (pre @ (p, vals) # post) = Inl (MultipleOccurence p)"
    by (simp add: Offer_parse_def Offer_parse_loop_append [OF pre])
  from many show "Response_parse (pre @ (p, vals) # post) = Inl (MultipleOccurence p)"
    by (simp add: Response_parse_def Response_parse_loop_eq Offer_parse_loop_append [OF pre])
next
  assume earlier: "pre = early @ (q, ws) # between \<and> list_all accepted_entry early \<and> \<not> accepted_entry (q, ws)"
  then have split: "pre @ (p, vals) # post = early @ (q, ws) # (between @ (p, vals) # post)"
    by simp
  from earlier have early: "list_all accepted_entry early" and offends: "\<not> accepted_entry (q, ws)"
    by simp_all
  show first: "Offer_parse (pre @ (p, vals) # post) =
      Inl (if 1 < length ws then MultipleOccurence q
           else case ws of
             [] \<Rightarrow> IndexError
           | val # _ \<Rightarrow>
               if q = ''c2s_no_context_takeover'' \<or> q = ''s2c_no_context_takeover''
               then IllegalParameterValue val q else IllegalParameter q)"
    unfolding split by (rule Offer_parse_first_offender [OF early offends])
  show "Response_parse (pre @ (p, vals) # post) =
      Inl (if 1 < length ws then MultipleOccurence q
                   else case ws of
                     [] \<Rightarrow> IndexError
                   | val # _ \<Rightarrow>
                       if q = ''c2s_no_context_takeover'' \<or> q = ''s2c_no_context_takeover''
                       then IllegalParameterValue val q else IllegalParameter q)"
    unfolding split by (rule Response_parse_first_offender [OF early offends])
qed

theorem parse_multiple_occurence_witness:
  "1 < length [PyBool True, PyStr ''x''] \<and>
   list_all accepted_entry [(''s2c_no_context_takeover'', [PyBool True])] \<and>
   Offer_parse ([(''s2c_no_context_takeover'', [PyBool True])] @
                (''c2s_no_context_takeover'', [PyBool True, PyStr ''x'']) # [(''foo'', [])])
     = Inl (MultipleOccurence ''c2s_no_context_takeover'') \<and>
   Response_parse ([(''s2c_no_context_takeover'', [PyBool True])] @
                (''c2s_no_context_takeover'', [PyBool True, PyStr ''x'']) # [(''foo'', [])])
     = Inl (MultipleOccurence ''c2s_no_context_takeover'') \<and>
   \<not> accepted_entry (''c2s_no_context_takeover'', [PyStr ''15'']) \<and>
   Offer_parse (([(''s2c_no_context_takeover'', [PyBool True])] @
                 (''c2s_no_context_takeover'', [PyStr ''15'']) # []) @
                (''foo'', [PyBool True, PyStr ''x'']) # [])
     = Inl (IllegalParameterValue (PyStr ''15'') ''c2s_no_context_takeover'') \<and>
   Response_parse (([(''s2c_no_context_takeover'', [PyBool True])] @
                 (''c2s_no_context_takeover'', [PyStr ''15'']) # []) @
                (''foo'', [PyBool True, PyStr ''x'']) # [])
     = Inl (IllegalParameterValue (PyStr ''15'') ''c2s_no_context_takeover'')"
proof -
  have many: "1 < length [PyBool True, PyStr ''x'']" by simp
  have pre: "list_all accepted_entry [(''s2c_no_context_takeover'', [PyBool True])]" by simp
  have offends: "\<not> accepted_entry (''c2s_no_context_takeover'', [PyStr ''15''])" by simp
  have dup: "Offer_parse ([(''s2c_no_context_takeover'', [PyBool True])] @
                (''c2s_no_context_takeover'', [PyBool True, PyStr ''x'']) # [(''foo'', [])])
       = Inl (MultipleOccurence ''c2s_no_context_takeover'') \<and>
     Response_parse ([(''s2c_no_context_takeover'', [PyBool True])] @
                (''c2s_no_context_takeover'', [PyBool True, PyStr ''x'']) # [(''foo'', [])])
       = Inl (MultipleOccurence ''c2s_no_context_takeover'')"
    using parse_multiple_occurence [OF many, of "[(''s2c_no_context_takeover'', [PyBool True])]"
      "''c2s_no_context_takeover''" "[(''foo'', [])]"] pre
    by blast
  have earlier: "Offer_parse (([(''s2c_no_context_takeover'', [PyBool True])] @
                 (''c2s_no_context_takeover'', [PyStr ''15'']) # []) @
                (''foo'', [PyBool True, PyStr ''x'']) # [])
       = Inl (IllegalParameterValue (PyStr ''15'') ''c2s_no_context_takeover'') \<and>
     Response_parse (([(''s2c_no_context_takeover'', [PyBool True])] @
                 (''c2s_no_context_takeover'', [PyStr ''15'']) # []) @
                (''foo'', [PyBool True, PyStr ''x'']) # [])
       = Inl (IllegalParameterValue (PyStr ''15'') ''c2s_no_context_takeover'')"
    using parse_multiple_occurence [OF many,
      where pre = "[(''s2c_no_context_takeover'', [PyBool True])] @ (''c2s_no_context_takeover'', [PyStr ''15'']) # []"
        and early = "[(''s2c_no_context_takeover'', [PyBool True])]"
        and q = "''c2s_no_context_takeover''" and ws = "[PyStr ''15'']" and between = "[]"
        and p = "''foo''" and post = "[]"] pre offends
    by simp
  from many pre offends dup earlier show ?thesis by blast
qed

text \<open>
  C4 as stated promises the multiple-occurence error for every such mapping. When an
  unknown key is visited before the repeated one, the parsers raise the
  illegal-parameter error for the unknown key instead.
\<close>

theorem parse_multiple_occurence_counterexample:
  "1 < length [PyBool True, PyBool True] \<and>
   Offer_parse [(''foo'', [PyBool True]), (''c2s_no_context_takeover'', [PyBool True, PyBool True])]
     = Inl (IllegalParameter ''foo'') \<and>
   Response_parse [(''foo'', [PyBool True]), (''c2s_no_context_takeover'', [PyBool True, PyBool True])]
     = Inl (IllegalParameter ''foo'') \<and>
   IllegalParameter ''foo'' \<noteq> MultipleOccurence ''c2s_no_context_takeover'' \<and>
   IllegalParameter ''foo'' \<noteq> MultipleOccurence ''foo''"
  by (simp add: Offer_parse_def Response_parse_def)

text \<open>
  C2. For each of the four offers, serialising it, tokenizing the string into a parameter
  mapping and parsing that mapping gives an offer with the same serialisation (it gives
  the offer itself).
\<close>

theorem Offer_roundtrip:
  "\<exists>parsed. Offer_parse (parseExtensionParams (Offer_getExtensionString offer)) = Inr parsed \<and>
            Offer_getExtensionString parsed = Offer_getExtensionString offer"
proof -
  obtain a r where offer: "offer = \<lparr> acceptNoContextTakeover = a, requestNoContextTakeover = r \<rparr>"
    by (cases offer) simp
  have "Offer_parse (parseExtensionParams (Offer_getExtensionString offer)) = Inr offer"
    unfolding offer
    by (cases a; cases r)
       (simp_all add: Offer_getExtensionString_def EXTENSION_NAME_def parseExtensionParams_def
          decode_parameter_def strip_def Offer_parse_def Offer_init_def)
  then show ?thesis by simp
qed

subsection \<open>The compression session\<close>

text \<open>
  C6. An accepted offer whose offer requests \<open>s\<close> and which itself requests \<open>c\<close>, and
  an accepted response with \<^verbatim>\<open>s2c_no_context_takeover\<close> \<open>= s\<close> and
  \<^verbatim>\<open>c2s_no_context_takeover\<close> \<open>= c\<close>, give the same session for the same \<^verbatim>\<open>isServer\<close>:
  no codec objects yet, \<^verbatim>\<open>s2c_no_context_takeover\<close> \<open>= s\<close> and
  \<^verbatim>\<open>c2s_no_context_takeover\<close> \<open>= c\<close>.
\<close>

theorem factories_agree:
  "requestNoContextTakeover (oa_offer offerAccept) = s \<Longrightarrow>
   oa_requestNoContextTakeover offerAccept = c \<Longrightarrow>
   s2c_no_context_takeover (response responseAccept) = s \<Longrightarrow>
   c2s_no_context_takeover (response responseAccept) = c \<Longrightarrow>
   createFromOfferAccept isServer offerAccept = createFromResponseAccept isServer responseAccept \<and>
   createFromOfferAccept isServer offerAccept =
     \<lparr> pmce_isServer = isServer, pmce_compressor = None, pmce_decompressor = None,
       pmce_s2c_no_context_takeover = s, pmce_c2s_no_context_takeover = c \<rparr>"
  by (simp add: createFromOfferAccept_def createFromResponseAccept_def PerMessageSnappy_init_def)

theorem factories_agree_witness:
  "OfferAccept_init (PyOffer (Offer_init (Some True) (Some False))) (Some (PyBool True))
     = Inr \<lparr> oa_offer = \<lparr> acceptNoContextTakeover = True, requestNoContextTakeover = False \<rparr>,
             oa_requestNoContextTakeover = True \<rparr> \<and>
   ResponseAccept_init (PyResponse (Response_init True False))
     = Inr \<lparr> response = \<lparr> c2s_no_context_takeover = True, s2c_no_context_takeover = False \<rparr> \<rparr> \<and>
   createFromOfferAccept True
       \<lparr> oa_offer = \<lparr> acceptNoContextTakeover = True, requestNoContextTakeover = False \<rparr>,
         oa_requestNoContextTakeover = True \<rparr>
     = createFromResponseAccept True
       \<lparr> response = \<lparr> c2s_no_context_takeover = True, s2c_no_context_takeover = False \<rparr> \<rparr> \<and>
   createFromOfferAccept True
       \<lparr> oa_offer = \<lparr> acceptNoContextTakeover = True, requestNoContextTakeover = False \<rparr>,
         oa_requestNoContextTakeover = True \<rparr>
     = \<lparr> pmce_isServer = True, pmce_compressor = None, pmce_decompressor = None,
         pmce_s2c_no_context_takeover = False, pmce_c2s_no_context_takeover = True \<rparr>"
proof -
  have built: "OfferAccept_init (PyOffer (Offer_init (Some True) (Some False))) (Some (PyBool True))
     = Inr \<lparr> oa_offer = \<lparr> acceptNoContextTakeover = True, requestNoContextTakeover = False \<rparr>,
             oa_requestNoContextTakeover = True \<rparr>"
    by (simp add: OfferAccept_init_def Offer_init_def Let_def)
  have built': "ResponseAccept_init (PyResponse (Response_init True False))
     = Inr \<lparr> response = \<lparr> c2s_no_context_takeover = True, s2c_no_context_takeover = False \<rparr> \<rparr>"
    by (simp add: ResponseAccept_init_def Response_init_def)
  have "createFromOfferAccept True
       \<lparr> oa_offer = \<lparr> acceptNoContextTakeover = True, requestNoContextTakeover = False \<rparr>,
         oa_requestNoContextTakeover = True \<rparr>
     = createFromResponseAccept True
       \<lparr> response = \<lparr> c2s_no_context_takeover = True, s2c_no_context_takeover = False \<rparr> \<rparr> \<and>
   createFromOfferAccept True
       \<lparr> oa_offer = \<lparr> acceptNoContextTakeover = True, requestNoContextTakeover = False \<rparr>,
         oa_requestNoContextTakeover = True \<rparr>
     = \<lparr> pmce_isServer = True, pmce_compressor = None, pmce_decompressor = None,
         pmce_s2c_no_context_takeover = False, pmce_c2s_no_context_takeover = True \<rparr>"
    by (rule factories_agree) simp_all
  with built built' show ?thesis by blast
qed

text \<open>
  C7. \<^verbatim>\<open>endCompressMessage\<close> returns the empty string and \<^verbatim>\<open>endDecompressMessage\<close>
  returns \<^verbatim>\<open>None\<close>; both leave every field of the session, and so both codec objects, as
  they were.
\<close>

theorem end_message_no_effect:
  "endCompressMessage (self, created) = ('''', (self, created)) \<and>
   endDecompressMessage (self, created) = (PyNone, (self, created))"
  by (simp add: endCompressMessage_def endDecompressMessage_def)

lemma startCompressMessage_eq:
  "startCompressMessage (self, created) =
     (if pmce_compressor self = None \<or>
         (if pmce_isServer self then pmce_s2c_no_context_takeover self
          else pmce_c2s_no_context_takeover self)
      then (self\<lparr>pmce_compressor := Some \<lparr> object_id = created, fed = [] \<rparr>\<rparr>, Suc created)
      else (self, created))"
  by (simp add: startCompressMessage_def new_snappy_object_def)

lemma startDecompressMessage_eq:
  "startDecompressMessage (self, created) =
     (if pmce_decompressor self = None \<or>
         (if pmce_isServer self then pmce_c2s_no_context_takeover self
          else pmce_s2c_no_context_takeover self)
      then (self\<lparr>pmce_decompressor := Some \<lparr> object_id = created, fed = [] \<rparr>\<rparr>, Suc created)
      else (self, created))"
  by (simp add: startDecompressMessage_def new_snappy_object_def)

text \<open>
  C5. \<^verbatim>\<open>startCompressMessage\<close> puts a newly created compressor in place exactly when
  there is none yet or the flag of the outbound direction is set
  (\<^verbatim>\<open>s2c_no_context_takeover\<close> for a server, \<^verbatim>\<open>c2s_no_context_takeover\<close> for a client),
  and changes nothing otherwise; when the compressor in place is one created earlier, the
  compressor after the call differs from it exactly in that case. For a server with
  \<^verbatim>\<open>s2c_no_context_takeover\<close> set, two calls in a row leave two compressors of different
  identity; with the flag clear, the second call keeps the compressor of the first.
\<close>

theorem startCompressMessage_resets:
  "startCompressMessage (self, created) =
     (if pmce_compressor self = None \<or>
         (if pmce_isServer self then pmce_s2c_no_context_takeover self
          else pmce_c2s_no_context_takeover self)
      then (self\<lparr>pmce_compressor := Some \<lparr> object_id = created, fed = [] \<rparr>\<rparr>, Suc created)
      else (self, created)) \<and>
   ((\<forall>obj. pmce_compressor self = Some obj \<longrightarrow> object_id obj < created) \<longrightarrow>
      (pmce_compressor (fst (startCompressMessage (self, created))) \<noteq> pmce_compressor self) =
      (pmce_compressor self = None \<or>
         (if pmce_isServer self then pmce_s2c_no_context_takeover self
          else pmce_c2s_no_context_takeover self))) \<and>
   (pmce_isServer self \<and> pmce_s2c_no_context_takeover self \<longrightarrow>
      (\<exists>first second.
         pmce_compressor (fst (startCompressMessage (self, created))) = Some first \<and>
         pmce_compressor (fst (startCompressMessage (startCompressMessage (self, created)))) = Some second \<and>
         object_id first \<noteq> object_id second)) \<and>
   (pmce_isServer self \<and> \<not> pmce_s2c_no_context_takeover self \<longrightarrow>
      (\<exists>first.
         pmce_compressor (fst (startCompressMessage (self, created))) = Some first \<and>
         pmce_compressor (fst (startCompressMessage (startCompressMessage (self, created)))) = Some first))"
proof (intro conjI impI)
  show "startCompressMessage (self, created) =
     (if pmce_compressor self = None \<or>
         (if pmce_isServer self then pmce_s2c_no_context_takeover self
          else pmce_c2s_no_context_takeover self)
      then (self\<lparr>pmce_compressor := Some \<lparr> object_id = created, fed = [] \<rparr>\<rparr>, Suc created)
      else (self, created))"
    by (rule startCompressMessage_eq)
next
  assume "\<forall>obj. pmce_compressor self = Some obj \<longrightarrow> object_id obj < created"
  then show "(pmce_compressor (fst (startCompressMessage (self, created))) \<noteq> pmce_compressor self) =
      (pmce_compressor self = None \<or>
         (if pmce_isServer self then pmce_s2c_no_context_takeover self
          else pmce_c2s_no_context_takeover self))"
    by (cases "pmce_compressor self") (auto simp: startCompressMessage_eq)
next
  assume "pmce_isServer self \<and> pmce_s2c_no_context_takeover self"
  then show "\<exists>first second.
         pmce_compressor (fst (startCompressMessage (self, created))) = Some first \<and>
         pmce_compressor (fst (startCompressMessage (startCompressMessage (self, created)))) = Some second \<and>
         object_id first \<noteq> object_id second"
    by (simp add: startCompressMessage_eq)
next
  assume "pmce_isServer self \<and> \<not> pmce_s2c_no_context_takeover self"
  then show "\<exists>first.
         pmce_compressor (fst (startCompressMessage (self, created))) = Some first \<and>
         pmce_compressor (fst (startCompressMessage (startCompressMessage (self, created)))) = Some first"
    by (cases "pmce_compressor self") (auto simp: startCompressMessage_eq)
qed

theorem startCompressMessage_resets_witness:
  "object_id \<lparr> object_id = 4, fed = [''abc''] \<rparr> < 7 \<and>
   pmce_compressor (fst (startCompressMessage
     (\<lparr> pmce_isServer = True, pmce_compressor = Some \<lparr> object_id = 4, fed = [''abc''] \<rparr>,
        pmce_decompressor = None, pmce_s2c_no_context_takeover = True,
        pmce_c2s_no_context_takeover = False \<rparr>, 7)))
     = Some \<lparr> object_id = 7, fed = [] \<rparr> \<and>
   pmce_compressor (fst (startCompressMessage (startCompressMessage
     (\<lparr> pmce_isServer = True, pmce_compressor = Some \<lparr> object_id = 4, fed = [''abc''] \<rparr>,
        pmce_decompressor = None, pmce_s2c_no_context_takeover = True,
        pmce_c2s_no_context_takeover = False \<rparr>, 7))))
     = Some \<lparr> object_id = 8, fed = [] \<rparr> \<and>
   pmce_compressor (fst (startCompressMessage
     (\<lparr> pmce_isServer = True, pmce_compressor = Some \<lparr> object_id = 4, fed = [''abc''] \<rparr>,
        pmce_decompressor = None, pmce_s2c_no_context_takeover = False,
        pmce_c2s_no_context_takeover = False \<rparr>, 7)))
     = Some \<lparr> object_id = 4, fed = [''abc''] \<rparr> \<and>
   pmce_compressor (fst (startCompressMessage (startCompressMessage
     (\<lparr> pmce_isServer = True, pmce_compressor = Some \<lparr> object_id = 4, fed = [''abc''] \<rparr>,
        pmce_decompressor = None, pmce_s2c_no_context_takeover = False,
        pmce_c2s_no_context_takeover = False \<rparr>, 7))))
     = Some \<lparr> object_id = 4, fed = [''abc''] \<rparr>"
proof -
  let ?reset = "\<lparr> pmce_isServer = True, pmce_compressor = Some \<lparr> object_id = 4, fed = [''abc''] \<rparr>,
        pmce_decompressor = None, pmce_s2c_no_context_takeover = True,
        pmce_c2s_no_context_takeover = False \<rparr>"
  let ?keep = "\<lparr> pmce_isServer = True, pmce_compressor = Some \<lparr> object_id = 4, fed = [''abc''] \<rparr>,
        pmce_decompressor = None, pmce_s2c_no_context_takeover = False,
        pmce_c2s_no_context_takeover = False \<rparr>"
  let ?first = "\<lparr> pmce_isServer = True, pmce_compressor = Some \<lparr> object_id = 7, fed = [] \<rparr>,
        pmce_decompressor = None, pmce_s2c_no_context_takeover = True,
        pmce_c2s_no_context_takeover = False \<rparr>"
  let ?second = "\<lparr> pmce_isServer = True, pmce_compressor = Some \<lparr> object_id = 8, fed = [] \<rparr>,
        pmce_decompressor = None, pmce_s2c_no_context_takeover = True,
        pmce_c2s_no_context_takeover = False \<rparr>"
  have earlier: "\<forall>obj. pmce_compressor ?reset = Some obj \<longrightarrow> object_id obj < 7"
    by simp
  have reset: "pmce_isServer ?reset \<and> pmce_s2c_no_context_takeover ?reset"
    by simp
  have keep: "pmce_isServer ?keep \<and> \<not> pmce_s2c_no_context_takeover ?keep"
    by simp
  have first: "startCompressMessage (?reset, 7) = (?first, 8)"
    using startCompressMessage_resets [of ?reset 7] by simp
  have replaced: "pmce_compressor (fst (startCompressMessage (?reset, 7))) \<noteq> pmce_compressor ?reset"
    using startCompressMessage_resets [of ?reset 7] earlier reset by simp
  have second: "startCompressMessage (?first, 8) = (?second, 9)"
    using startCompressMessage_resets [of ?first 8] by simp
  have kept: "startCompressMessage (?keep, 7) = (?keep, 7)"
    using startCompressMessage_resets [of ?keep 7] by simp
  have same: "pmce_compressor (fst (startCompressMessage (startCompressMessage (?keep, 7))))
      = pmce_compressor (fst (startCompressMessage (?keep, 7)))"
    using startCompressMessage_resets [of ?keep 7] keep by simp
  show ?thesis
    using replaced same by (simp add: first second kept)
qed

lemma do_call_keeps_compressor:
  "pmce_compressor (fst w) \<noteq> None \<Longrightarrow> pmce_compressor (fst (do_call add_chunk decompress c w)) \<noteq> None"
  by (cases w; cases c)
     (auto simp: startCompressMessage_eq startDecompressMessage_eq compressMessageData_def
        decompressMessageData_def endCompressMessage_def endDecompressMessage_def
        split: option.splits)

lemma do_call_keeps_decompressor:
  "pmce_decompressor (fst w) \<noteq> None \<Longrightarrow> pmce_decompressor (fst (do_call add_chunk decompress c w)) \<noteq> None"
  by (cases w; cases c)
     (auto simp: startCompressMessage_eq startDecompressMessage_eq compressMessageData_def
        decompressMessageData_def endCompressMessage_def endDecompressMessage_def
        split: option.splits)

lemma do_calls_keeps_compressor:
  "pmce_compressor (fst w) \<noteq> None \<Longrightarrow> pmce_compressor (fst (do_calls add_chunk decompress cs w)) \<noteq> None"
proof (induction cs arbitrary: w)
  case Nil
  then show ?case by simp
next
  case (Cons c cs)
  from Cons.prems have "pmce_compressor (fst (do_call add_chunk decompress c w)) \<noteq> None"
    by (rule do_call_keeps_compressor)
  then have "pmce_compressor (fst (do_calls add_chunk decompress cs (do_call add_chunk decompress c w))) \<noteq> None"
    by (rule Cons.IH)
  then show ?case by simp
qed

lemma do_calls_keeps_decompressor:
  "pmce_decompressor (fst w) \<noteq> None \<Longrightarrow> pmce_decompressor (fst (do_calls add_chunk decompress cs w)) \<noteq> None"
proof (induction cs arbitrary: w)
  case Nil
  then show ?case by simp
next
  case (Cons c cs)
  from Cons.prems have "pmce_decompressor (fst (do_call add_chunk decompress c w)) \<noteq> None"
    by (rule do_call_keeps_decompressor)
  then have "pmce_decompressor (fst (do_calls add_chunk decompress cs (do_call add_chunk decompress c w))) \<noteq> None"
    by (rule Cons.IH)
  then show ?case by simp
qed

lemma compressMessageData_AttributeError:
  "(fst (compressMessageData add_chunk w data) = Inl AttributeError) = (pmce_compressor (fst w) = None)"
  by (cases w) (auto simp: compressMessageData_def split: option.splits sum.splits)

lemma decompressMessageData_AttributeError:
  "(fst (decompressMessageData decompress w data) = Inl AttributeError) = (pmce_decompressor (fst w) = None)"
  by (cases w) (auto simp: decompressMessageData_def split: option.splits sum.splits)

lemma startCompressMessage_compressor: "pmce_compressor (fst (startCompressMessage w)) \<noteq> None"
  by (cases w) (simp add: startCompressMessage_eq)

lemma startDecompressMessage_decompressor: "pmce_decompressor (fst (startDecompressMessage w)) \<noteq> None"
  by (cases w) (simp add: startDecompressMessage_eq)

text \<open>
  C10. After \<^verbatim>\<open>startCompressMessage\<close> the session has a compressor and after
  \<^verbatim>\<open>startDecompressMessage\<close> a decompressor, in either role; no later call takes one
  away, so after the start call and any further calls \<^verbatim>\<open>compressMessageData\<close> (or
  \<^verbatim>\<open>decompressMessageData\<close>) does not raise \<^verbatim>\<open>AttributeError\<close> on \<^verbatim>\<open>None\<close>.
\<close>

theorem start_message_creates_context:
  "pmce_compressor (fst (startCompressMessage w)) \<noteq> None \<and>
   pmce_decompressor (fst (startDecompressMessage w)) \<noteq> None \<and>
   pmce_compressor (fst (do_calls add_chunk decompress cs (startCompressMessage w))) \<noteq> None \<and>
   fst (compressMessageData add_chunk (do_calls add_chunk decompress cs (startCompressMessage w)) data)
     \<noteq> Inl AttributeError \<and>
   pmce_decompressor (fst (do_calls add_chunk decompress cs (startDecompressMessage w))) \<noteq> None \<and>
   fst (decompressMessageData decompress (do_calls add_chunk decompress cs (startDecompressMessage w)) data)
     \<noteq> Inl AttributeError"
  by (simp add: startCompressMessage_compressor startDecompressMessage_decompressor
      do_calls_keeps_compressor do_calls_keeps_decompressor
      compressMessageData_AttributeError decompressMessageData_AttributeError)

theorem start_message_creates_context_witness:
  "fst (compressMessageData (\<lambda>before data. Inr data) (PerMessageSnappy_init True False False, 0) ''b'')
     = Inl AttributeError \<and>
   fst (compressMessageData (\<lambda>before data. Inr data)
          (do_calls (\<lambda>before data. Inr data) (\<lambda>before data. Inr data)
             [CompressMessageData ''a'', EndCompressMessage, StartDecompressMessage]
             (startCompressMessage (PerMessageSnappy_init True False False, 0))) ''b'')
     = Inr ''b'' \<and>
   fst (decompressMessageData (\<lambda>before data. Inr data)
          (do_calls (\<lambda>before data. Inr data) (\<lambda>before data. Inr data)
             [EndDecompressMessage, StartCompressMessage]
             (startDecompressMessage (PerMessageSnappy_init False True False, 0))) ''b'')
     \<noteq> Inl AttributeError"
proof -
  have none: "fst (compressMessageData (\<lambda>before data. Inr data) (PerMessageSnappy_init True False False, 0) ''b'')
     = Inl AttributeError"
    by (simp add: compressMessageData_def PerMessageSnappy_init_def)
  have some: "fst (compressMessageData (\<lambda>before data. Inr data)
          (do_calls (\<lambda>before data. Inr data) (\<lambda>before data. Inr data)
             [CompressMessageData ''a'', EndCompressMessage, StartDecompressMessage]
             (startCompressMessage (PerMessageSnappy_init True False False, 0))) ''b'')
     = Inr ''b''"
    by (simp add: compressMessageData_def PerMessageSnappy_init_def startCompressMessage_def
        startDecompressMessage_def endCompressMessage_def new_snappy_object_def)
  from start_message_creates_context
    [of "(PerMessageSnappy_init False True False, 0)" "\<lambda>before data. Inr data"
        "\<lambda>before data. Inr data" "[EndDecompressMessage, StartCompressMessage]" "''b''"]
    none some
  show ?thesis by blast
qed

end
